theory Spec2Isabelle
  imports Main "HOL-Library.Word" "HOL-Library.AList" "HOL-Library.Char_ord" "HOL-Library.List_Lexorder"
begin

section \<open>xml2mql: XML to Emdros MQL importer\<close>

text \<open>
  A shallow embedding of \<^verbatim>\<open>xml2mql.py\<close>.  Python \<^verbatim>\<open>int\<close> is \<^typ>\<open>int\<close>; a Python
  \<^verbatim>\<open>str\<close> held by the handler (tag names, feature names, text) is a \<^typ>\<open>string\<close>
  whose characters stand for the code points below 256; a Python \<^verbatim>\<open>dict\<close> is an
  association list in insertion order, read with \<^const>\<open>map_of\<close> and written with
  \<^const>\<open>AList.update\<close>; a Python list used as a stack grows and shrinks at its end.
  Every exception the source can raise is a value of \<open>error\<close>, and a function that can
  raise returns \<open>error + 'a\<close>.
\<close>

datatype error =
    KeyError
  | IndexError
  | AssertionError
  | UnicodeEncodeError
  | UnknownStartTag string
  | UnknownEndTag string

subsection \<open>Python built-ins used by the source\<close>

type_synonym byte = "8 word"

text \<open>\<^verbatim>\<open>str.encode('utf-8')\<close> on a sequence of code points; a surrogate cannot be encoded.\<close>

definition encode_codepoint :: "nat \<Rightarrow> error + byte list" where
  "encode_codepoint c =
     (if c < 0x80 then Inr [of_nat c]
      else if c < 0x800 then Inr [of_nat (0xC0 + c div 64), of_nat (0x80 + c mod 64)]
      else if c < 0x10000 then
        (if 0xD800 \<le> c \<and> c < 0xE000 then Inl UnicodeEncodeError
         else Inr [of_nat (0xE0 + c div 4096), of_nat (0x80 + (c div 64) mod 64),
                   of_nat (0x80 + c mod 64)])
      else if c < 0x110000 then
        Inr [of_nat (0xF0 + c div 262144), of_nat (0x80 + (c div 4096) mod 64),
             of_nat (0x80 + (c div 64) mod 64), of_nat (0x80 + c mod 64)]
      else Inl UnicodeEncodeError)"

fun encode_utf8 :: "nat list \<Rightarrow> error + byte list" where
  "encode_utf8 [] = Inr []"
| "encode_utf8 (c # cs) =
     (case encode_codepoint c of
        Inl e \<Rightarrow> Inl e
      | Inr bs \<Rightarrow> (case encode_utf8 cs of Inl e \<Rightarrow> Inl e | Inr rest \<Rightarrow> Inr (bs @ rest)))"

text \<open>The two lower-case hexadecimal digits of \<^verbatim>\<open>%02x\<close>, as bytes.\<close>

definition hexdigit :: "nat \<Rightarrow> byte" where
  "hexdigit n = (if n < 10 then of_nat (48 + n) else of_nat (87 + n))"

text \<open>\<^verbatim>\<open>str.lower()\<close> on the code points below 256.\<close>

definition lower_char :: "char \<Rightarrow> char" where
  "lower_char c =
     (let n = (of_char c :: nat)
      in if (65 \<le> n \<and> n \<le> 90) \<or> (192 \<le> n \<and> n \<le> 222 \<and> n \<noteq> 215)
         then char_of (n + 32) else c)"

definition lower :: "string \<Rightarrow> string" where
  "lower s = map lower_char s"

text \<open>\<^verbatim>\<open>"%d" % i\<close>.\<close>

function str_of_nat :: "nat \<Rightarrow> string" where
  "str_of_nat n =
     (if n < 10 then [''0123456789'' ! n]
      else str_of_nat (n div 10) @ [''0123456789'' ! (n mod 10)])"
  by pat_completeness auto
termination
  by (relation "measure id") auto

declare str_of_nat.simps [simp del]

definition str_of_int :: "int \<Rightarrow> string" where
  "str_of_int i = (if i < 0 then CHR ''-'' # str_of_nat (nat (- i)) else str_of_nat (nat i))"

text \<open>
  \<^verbatim>\<open>"%s" % b\<close> for a \<^verbatim>\<open>bytes\<close> value \<open>b\<close>: Python 3 formats it as its \<^verbatim>\<open>repr\<close>,
  \<^verbatim>\<open>b'...'\<close>, quoted with a double quote when the value holds a single quote and no
  double quote.
\<close>

definition repr_quote :: "byte list \<Rightarrow> byte" where
  "repr_quote bs = (if 0x27 \<in> set bs \<and> 0x22 \<notin> set bs then 0x22 else 0x27)"

definition repr_byte :: "byte \<Rightarrow> byte \<Rightarrow> string" where
  "repr_byte q c =
     (if c = q \<or> c = 0x5C then [CHR 0x5C, char_of (unat c)]
      else if c = 0x09 then [CHR 0x5C, CHR ''t'']
      else if c = 0x0A then [CHR 0x5C, CHR ''n'']
      else if c = 0x0D then [CHR 0x5C, CHR ''r'']
      else if c < 0x20 \<or> 0x7F \<le> c then
        [CHR 0x5C, CHR ''x'', ''0123456789abcdef'' ! (unat c div 16),
         ''0123456789abcdef'' ! (unat c mod 16)]
      else [char_of (unat c)])"

definition str_of_bytes :: "byte list \<Rightarrow> string" where
  "str_of_bytes bs =
     (let q = repr_quote bs
      in CHR ''b'' # char_of (unat q) # concat (map (repr_byte q) bs) @ [char_of (unat q)])"

subsection \<open>MQL string mangling\<close>

text \<open>\<^verbatim>\<open>special_re = re.compile(rb"[\n\t\"\\]")\<close>: the bytes the first pass replaces.\<close>

definition special_re :: "byte \<Rightarrow> bool" where
  "special_re c \<longleftrightarrow> c = 0x0A \<or> c = 0x09 \<or> c = 0x22 \<or> c = 0x5C"

definition special_dict :: "(byte \<times> byte list) list" where
  "special_dict =
     [(0x0A, [0x5C, 0x6E]),
      (0x09, [0x5C, 0x74]),
      (0x22, [0x5C, 0x22]),
      (0x5C, [0x5C, 0x5C])]"

text \<open>\<^verbatim>\<open>upper_bit_re = re.compile(b'[\x80-\xff]')\<close>.\<close>

definition upper_bit_re :: "byte \<Rightarrow> bool" where
  "upper_bit_re c \<longleftrightarrow> 0x80 \<le> c"

definition special_sub :: "byte \<Rightarrow> error + byte list" where
  "special_sub c = (case map_of special_dict c of None \<Rightarrow> Inl KeyError | Some r \<Rightarrow> Inr r)"

definition upper_bit_sub :: "byte \<Rightarrow> error + byte list" where
  "upper_bit_sub c = Inr [0x5C, 0x78, hexdigit (unat c div 16), hexdigit (unat c mod 16)]"

text \<open>
  \<^verbatim>\<open>pattern.sub(repl, bs)\<close> for a pattern that is a class of single bytes: each
  matching byte is replaced by what \<open>repl\<close> returns for it, the others are kept.
\<close>

fun re_sub :: "(byte \<Rightarrow> bool) \<Rightarrow> (byte \<Rightarrow> error + byte list) \<Rightarrow> byte list \<Rightarrow> error + byte list" where
  "re_sub p repl [] = Inr []"
| "re_sub p repl (c # cs) =
     (case (if p c then repl c else Inr [c]) of
        Inl e \<Rightarrow> Inl e
      | Inr r \<Rightarrow> (case re_sub p repl cs of Inl e \<Rightarrow> Inl e | Inr rest \<Rightarrow> Inr (r @ rest)))"

definition mangleMQLString :: "nat list \<Rightarrow> error + byte list" where
  "mangleMQLString ustr =
     (case encode_utf8 ustr of
        Inl e \<Rightarrow> Inl e
      | Inr bs \<Rightarrow>
          (case re_sub special_re special_sub bs of
             Inl e \<Rightarrow> Inl e
           | Inr result \<Rightarrow> re_sub upper_bit_re upper_bit_sub result))"

text \<open>
  The inverse rule the specification refers to (the reading side of the MQL string
  grammar), written from the specification's words: a backslash followed by \<open>n\<close>, \<open>t\<close>,
  a quote or a backslash stands for that character, a backslash followed by \<open>x\<close> and two
  hexadecimal digits stands for the byte with that value, every other byte stands for
  itself.
\<close>

definition unhexdigit :: "byte \<Rightarrow> nat" where
  "unhexdigit b = (if b < 0x3A then unat b - 48 else unat b - 87)"

fun unescape :: "byte list \<Rightarrow> byte list" where
  "unescape [] = []"
| "unescape [b] = [b]"
| "unescape (b # c # rest) =
     (if b = 0x5C then
        (if c = 0x6E then 0x0A # unescape rest
         else if c = 0x74 then 0x09 # unescape rest
         else if c = 0x78 then
           (case rest of
              h # l # rest' \<Rightarrow> of_nat (16 * unhexdigit h + unhexdigit l) # unescape rest'
            | _ \<Rightarrow> c # unescape rest)
         else c # unescape rest)
      else b # unescape (c # rest))"

subsection \<open>Object type descriptions, tokens and objects\<close>

record ObjectTypeDescription =
  otd_objectTypeName :: string
  otd_objectRangeType :: string
  features :: "(string \<times> string) list"

definition ObjectTypeDescription_init :: "string \<Rightarrow> string \<Rightarrow> ObjectTypeDescription" where
  "ObjectTypeDescription_init objectTypeName objectRangeType =
     \<lparr>otd_objectTypeName = objectTypeName,
      otd_objectRangeType =
        (if objectRangeType \<noteq> [] then objectRangeType else ''WITH SINGLE RANGE OBJECTS''),
      features = []\<rparr>"

definition addFeature :: "ObjectTypeDescription \<Rightarrow> string \<Rightarrow> string \<Rightarrow> error + ObjectTypeDescription" where
  "addFeature d featureName featureType =
     (if featureName \<noteq> [] \<and> featureType \<noteq> []
      then Inr (d\<lparr>features := AList.update featureName featureType (features d)\<rparr>)
      else Inl AssertionError)"

record Token =
  monad :: int
  wholesurface :: string
  prefix :: string
  surface :: string
  suffix :: string
  xmlindex :: int
  id_d :: int

definition Token_init :: "int \<Rightarrow> string \<Rightarrow> string \<Rightarrow> string \<Rightarrow> int \<Rightarrow> int \<Rightarrow> Token" where
  "Token_init m pre sur suf xi i =
     \<lparr>monad = m, wholesurface = pre @ sur @ suf, prefix = pre, surface = sur, suffix = suf,
      xmlindex = xi, id_d = i\<rparr>"

text \<open>
  Output is modelled as the list of strings passed to \<^verbatim>\<open>write\<close>, one per call.
  \<^verbatim>\<open>"%s:\"%s\";\n" % (featureName, mangleMQLString(featureValue))\<close>:
\<close>

definition token_feature_line :: "string \<Rightarrow> string \<Rightarrow> error + string" where
  "token_feature_line featureName featureValue =
     (case mangleMQLString (map of_char featureValue) of
        Inl e \<Rightarrow> Inl e
      | Inr bs \<Rightarrow>
          Inr (featureName @ [CHR '':'', CHR 0x22] @ str_of_bytes bs @ [CHR 0x22, CHR '';'', CHR 0x0A]))"

fun token_feature_lines :: "(string \<times> string) list \<Rightarrow> error + string list" where
  "token_feature_lines [] = Inr []"
| "token_feature_lines ((featureName, featureValue) # rest) =
     (case token_feature_line featureName featureValue of
        Inl e \<Rightarrow> Inl e
      | Inr l \<Rightarrow> (case token_feature_lines rest of Inl e \<Rightarrow> Inl e | Inr ls \<Rightarrow> Inr (l # ls)))"

definition Token_dumpMQL :: "Token \<Rightarrow> error + string list" where
  "Token_dumpMQL t =
     (let surface_lowcase = lower (surface t)
      in case token_feature_lines
                [(''prefix'', prefix t), (''surface'', surface t), (''suffix'', suffix t),
                 (''surface_lowcase'', surface_lowcase)] of
           Inl e \<Rightarrow> Inl e
         | Inr ls \<Rightarrow>
             Inr ([''CREATE OBJECT FROM MONADS={'' @ str_of_int (monad t) @ ''}'' @ [CHR 0x0A]]
                  @ (if id_d t \<noteq> 0 then [''WITH ID_D='' @ str_of_int (id_d t) @ [CHR 0x0A]] else [])
                  @ [''['']
                  @ ls
                  @ [''xmlindex:='' @ str_of_int (xmlindex t) @ '';'' @ [CHR 0x0A],
                     '']'' @ [CHR 0x0A]]))"

text \<open>A non-string feature holds the document index (an integer) or an attribute value.\<close>

datatype pyval = PInt int | PStr string

fun str_of_pyval :: "pyval \<Rightarrow> string" where
  "str_of_pyval (PInt i) = str_of_int i"
| "str_of_pyval (PStr s) = s"

record SRObject =
  objectTypeName :: string
  fm :: int
  lm :: int
  stringFeatures :: "(string \<times> string) list"
  nonStringFeatures :: "(string \<times> pyval) list"
  obj_id_d :: int

definition SRObject_init :: "string \<Rightarrow> int \<Rightarrow> SRObject" where
  "SRObject_init name starting_monad =
     \<lparr>objectTypeName = name, fm = starting_monad, lm = starting_monad,
      stringFeatures = [], nonStringFeatures = [], obj_id_d = 0\<rparr>"

definition setStringFeature :: "SRObject \<Rightarrow> string \<Rightarrow> string \<Rightarrow> SRObject" where
  "setStringFeature obj name v = obj\<lparr>stringFeatures := AList.update name v (stringFeatures obj)\<rparr>"

definition setNonStringFeature :: "SRObject \<Rightarrow> string \<Rightarrow> pyval \<Rightarrow> SRObject" where
  "setNonStringFeature obj name v =
     obj\<lparr>nonStringFeatures := AList.update name v (nonStringFeatures obj)\<rparr>"

definition setLastMonad :: "SRObject \<Rightarrow> int \<Rightarrow> SRObject" where
  "setLastMonad obj ending_monad =
     (if ending_monad < fm obj then obj\<lparr>lm := fm obj\<rparr> else obj\<lparr>lm := ending_monad\<rparr>)"

definition getMonadLength :: "SRObject \<Rightarrow> int" where
  "getMonadLength obj = lm obj - fm obj + 1"

definition nonstring_feature_line :: "string \<Rightarrow> pyval \<Rightarrow> string" where
  "nonstring_feature_line key v = ''  '' @ key @ '':='' @ str_of_pyval v @ '';'' @ [CHR 0x0A]"

definition string_feature_line :: "string \<Rightarrow> string \<Rightarrow> error + string" where
  "string_feature_line key v =
     (case mangleMQLString (map of_char v) of
        Inl e \<Rightarrow> Inl e
      | Inr bs \<Rightarrow>
          Inr (''  '' @ key @ '':='' @ [CHR 0x22] @ str_of_bytes bs @ [CHR 0x22, CHR '';'', CHR 0x0A]))"

fun string_feature_lines :: "(string \<times> string) list \<Rightarrow> error + string list" where
  "string_feature_lines [] = Inr []"
| "string_feature_lines ((key, v) # rest) =
     (case string_feature_line key v of
        Inl e \<Rightarrow> Inl e
      | Inr l \<Rightarrow> (case string_feature_lines rest of Inl e \<Rightarrow> Inl e | Inr ls \<Rightarrow> Inr (l # ls)))"

definition SRObject_dumpMQL :: "SRObject \<Rightarrow> error + string list" where
  "SRObject_dumpMQL obj =
     (case string_feature_lines (stringFeatures obj) of
        Inl e \<Rightarrow> Inl e
      | Inr ls \<Rightarrow>
          Inr ([''CREATE OBJECT FROM MONADS={'' @ str_of_int (fm obj) @ ''-'' @ str_of_int (lm obj) @ ''}'']
               @ (if obj_id_d obj \<noteq> 0 then [''WITH ID_D='' @ str_of_int (obj_id_d obj)] else [])
               @ [''['']
               @ map (\<lambda>(key, v). nonstring_feature_line key v) (nonStringFeatures obj)
               @ ls
               @ ['']'' @ [CHR 0x0A]]))"

subsection \<open>The JSON script\<close>

text \<open>
  The script is the parsed JSON document.  The records hold the keys the source reads
  with a subscript (a script without one of them makes the source raise
  \<^verbatim>\<open>KeyError\<close> at once); a key the source reads with \<^verbatim>\<open>.get\<close> or tests with
  \<^verbatim>\<open>in\<close> is an \<open>option\<close>, \<open>None\<close> when the key is absent (or \<^verbatim>\<open>null\<close> for the
  token object type name).  The description of one attribute stays a dictionary, since
  the source looks keys up in it by variable.
\<close>

record element_description =
  el_objectTypeName :: string
  el_tokenObjectTypeName :: "string option"
  el_attributes :: "(string \<times> (string \<times> string) list) list option"
  el_minimumMonadLength :: "int option"
  el_objectRangeType :: "string option"

record global_parameters_t =
  gp_docIndexFeatureName :: string
  gp_docIndexIncrementBeforeObjectType :: "(string \<times> int) list"
  gp_tokenObjectTypeNameList :: "string list"

record script_t =
  global_parameters :: global_parameters_t
  script_handled_elements :: "(string \<times> element_description) list"
  script_ignored_elements :: "string list"
  script_nixed_elements :: "string list"

text \<open>The keys of \<^verbatim>\<open>script["global_parameters"]\<close>, in the order the script generator writes them.\<close>

definition global_parameters_keys :: "string list" where
  "global_parameters_keys =
     [''docIndexFeatureName'', ''docIndexIncrementBeforeObjectType'', ''tokenObjectTypeNameList'']"

text \<open>\<^verbatim>\<open>d.get(key, default)\<close>.\<close>

definition dict_get :: "('k \<times> 'v) list \<Rightarrow> 'k \<Rightarrow> 'v \<Rightarrow> 'v" where
  "dict_get d key dflt = (case map_of d key of None \<Rightarrow> dflt | Some v \<Rightarrow> v)"

subsection \<open>The handler state\<close>

text \<open>
  One record holds the instance variables of \<^verbatim>\<open>BaseHandler\<close> and of
  \<^verbatim>\<open>MQLGeneratorHandler\<close>.  The tokenizer (\<^verbatim>\<open>latin_tokenizer.tokenize_string\<close>) is
  not part of this file; the functions that call it take it as their first argument.
\<close>

type_synonym tokenizer = "string \<Rightarrow> (string \<times> string \<times> string) list"

record handler =
  elemstack :: "string list"
  charstack :: "string list"
  nixing_stack :: "string list"
  nixed_elements :: "string set"
  ignored_elements :: "string set"
  handled_elements :: "string set"
  objstacks :: "(string \<times> SRObject list) list"
  objects :: "(string \<times> SRObject list) list"
  script :: script_t
  schema :: "(string \<times> ObjectTypeDescription) list"
  curdocindex :: int
  curmonad :: int
  curid_d :: int
  docIndexFeatureName :: string
  tokens :: "(string \<times> Token list) list"

text \<open>\<^verbatim>\<open>d.setdefault(key, [])\<close>.\<close>

definition setdefault_list :: "('k \<times> 'v list) list \<Rightarrow> 'k \<Rightarrow> ('k \<times> 'v list) list" where
  "setdefault_list d key = (case map_of d key of None \<Rightarrow> d @ [(key, [])] | Some _ \<Rightarrow> d)"

subsection \<open>Schema derivation\<close>

definition token_schema_features :: "(string \<times> string) list" where
  "token_schema_features =
     [(''pre'', ''STRING FROM SET''),
      (''surface'', ''STRING WITH INDEX''),
      (''post'', ''STRING FROM SET''),
      (''surface_lowcase'', ''STRING WITH INDEX'')]"

fun addFeatures :: "ObjectTypeDescription \<Rightarrow> (string \<times> string) list \<Rightarrow> error + ObjectTypeDescription" where
  "addFeatures d [] = Inr d"
| "addFeatures d ((featureName, featureType) # rest) =
     (case addFeature d featureName featureType of
        Inl e \<Rightarrow> Inl e
      | Inr d' \<Rightarrow> addFeatures d' rest)"

text \<open>
  The first loop of \<^verbatim>\<open>makeSchema\<close>, over the names it is given.  The source iterates
  over \<^verbatim>\<open>self.script["global_parameters"]\<close>, that is, over the keys of that dictionary.
\<close>

fun makeSchema_tokens ::
  "string \<Rightarrow> string list \<Rightarrow> (string \<times> ObjectTypeDescription) list
    \<Rightarrow> error + (string \<times> ObjectTypeDescription) list" where
  "makeSchema_tokens dn [] sch = Inr sch"
| "makeSchema_tokens dn (tokenObjectTypeName # rest) sch =
     (case addFeatures (ObjectTypeDescription_init tokenObjectTypeName ''WITH SINGLE MONAD OBJECTS'')
             token_schema_features of
        Inl e \<Rightarrow> Inl e
      | Inr d \<Rightarrow>
          (case addFeature d dn ''INTEGER'' of
             Inl e \<Rightarrow> Inl e
           | Inr d' \<Rightarrow> makeSchema_tokens dn rest (AList.update tokenObjectTypeName d' sch)))"

text \<open>
  The loop over the declared attributes of one element.  The keys looked up in an
  attribute's description are the current values of the local variables
  \<^verbatim>\<open>featureName\<close> and \<^verbatim>\<open>featureType\<close> (the source writes the names without
  quotes), and the results are assigned to the same variables; the pair is threaded
  through the loop.
\<close>

fun makeSchema_attributes ::
  "string \<times> string \<Rightarrow> ObjectTypeDescription \<Rightarrow> (string \<times> (string \<times> string) list) list
    \<Rightarrow> error + ((string \<times> string) \<times> ObjectTypeDescription)" where
  "makeSchema_attributes vars d [] = Inr (vars, d)"
| "makeSchema_attributes (featureName, featureType) d ((key, description) # rest) =
     (let featureName' = dict_get description featureName [];
          featureType' = dict_get description featureType []
      in if featureName' \<noteq> [] \<and> featureType' \<noteq> [] then
           (case addFeature d featureName' featureType' of
              Inl e \<Rightarrow> Inl e
            | Inr d' \<Rightarrow> makeSchema_attributes (featureName', featureType') d' rest)
         else makeSchema_attributes (featureName', featureType') d rest)"

fun makeSchema_elements ::
  "string \<Rightarrow> string \<times> string \<Rightarrow> (string \<times> element_description) list
    \<Rightarrow> (string \<times> ObjectTypeDescription) list \<Rightarrow> error + (string \<times> ObjectTypeDescription) list" where
  "makeSchema_elements dn vars [] sch = Inr sch"
| "makeSchema_elements dn vars ((element_name, el) # rest) sch =
     (let objectTypeName = el_objectTypeName el;
          objectRangeType = (case el_objectRangeType el of
                               None \<Rightarrow> ''WITH SINGLE RANGE OBJECTS'' | Some r \<Rightarrow> r);
          d = ObjectTypeDescription_init objectTypeName objectRangeType
      in case (case el_attributes el of
                 None \<Rightarrow> Inr (vars, d)
               | Some attrs \<Rightarrow> makeSchema_attributes vars d attrs) of
           Inl e \<Rightarrow> Inl e
         | Inr (vars', d') \<Rightarrow>
             (case addFeature d' dn ''INTEGER'' of
                Inl e \<Rightarrow> Inl e
              | Inr d'' \<Rightarrow> makeSchema_elements dn vars' rest (AList.update objectTypeName d'' sch)))"

text \<open>
  \<^verbatim>\<open>makeSchema\<close>.  After the first loop, which runs once for each of the three keys
  of the global parameters, \<^verbatim>\<open>featureName\<close> and \<^verbatim>\<open>featureType\<close> hold the last pair
  of the token feature list.
\<close>

definition makeSchema :: "handler \<Rightarrow> error + handler" where
  "makeSchema h =
     (case makeSchema_tokens (docIndexFeatureName h) global_parameters_keys (schema h) of
        Inl e \<Rightarrow> Inl e
      | Inr sch \<Rightarrow>
          (case makeSchema_elements (docIndexFeatureName h) (last token_schema_features)
                  (script_handled_elements (script h)) sch of
             Inl e \<Rightarrow> Inl e
           | Inr sch' \<Rightarrow> Inr (h\<lparr>schema := sch'\<rparr>)))"

subsection \<open>Construction\<close>

definition initialize :: "handler \<Rightarrow> handler" where
  "initialize h =
     h\<lparr>tokens := foldl setdefault_list (tokens h)
                   (gp_tokenObjectTypeNameList (global_parameters (script h))),
       docIndexFeatureName := gp_docIndexFeatureName (global_parameters (script h)),
       handled_elements := handled_elements h \<union> set (map fst (script_handled_elements (script h))),
       ignored_elements := ignored_elements h \<union> set (script_ignored_elements (script h)),
       nixed_elements := nixed_elements h \<union> set (script_nixed_elements (script h))\<rparr>"

text \<open>\<^verbatim>\<open>MQLGeneratorHandler.__init__(self, json_file, first_monad, first_id_d)\<close>, given the parsed script.\<close>

definition MQLGeneratorHandler_init :: "script_t \<Rightarrow> int \<Rightarrow> int \<Rightarrow> error + handler" where
  "MQLGeneratorHandler_init scr first_monad first_id_d =
     makeSchema (initialize
       \<lparr>elemstack = [], charstack = [], nixing_stack = [],
        nixed_elements = {}, ignored_elements = {}, handled_elements = {},
        objstacks = [], objects = [],
        script = scr,
        schema = [],
        curdocindex = 1,
        curmonad = first_monad,
        curid_d = first_id_d,
        docIndexFeatureName = [],
        tokens = []\<rparr>)"

subsection \<open>Tokens and objects\<close>

definition createToken :: "handler \<Rightarrow> string \<Rightarrow> string \<Rightarrow> string \<Rightarrow> string \<Rightarrow> error + handler" where
  "createToken h tokenObjectTypeName pre sur suf =
     (let docindex_increment =
            min 1 (dict_get (gp_docIndexIncrementBeforeObjectType (global_parameters (script h)))
                     tokenObjectTypeName 1);
          h1 = h\<lparr>curdocindex := curdocindex h + docindex_increment\<rparr>;
          t = Token_init (curmonad h1) pre sur suf (curdocindex h1) (curid_d h1);
          h2 = h1\<lparr>curmonad := curmonad h1 + 1,
                  curid_d := curid_d h1 + 1,
                  curdocindex := curdocindex h1 + 1\<rparr>
      in case map_of (tokens h2) tokenObjectTypeName of
           None \<Rightarrow> Inl KeyError
         | Some ts \<Rightarrow> Inr (h2\<lparr>tokens := AList.update tokenObjectTypeName (ts @ [t]) (tokens h2)\<rparr>))"

fun createTokens :: "handler \<Rightarrow> string \<Rightarrow> (string \<times> string \<times> string) list \<Rightarrow> error + handler" where
  "createTokens h tokenObjectTypeName [] = Inr h"
| "createTokens h tokenObjectTypeName ((pre, sur, suf) # token_list) =
     (case createToken h tokenObjectTypeName pre sur suf of
        Inl e \<Rightarrow> Inl e
      | Inr h' \<Rightarrow> createTokens h' tokenObjectTypeName token_list)"

text \<open>
  \<^verbatim>\<open>MQLGeneratorHandler.handleChars\<close>: text is tokenized only when the flush comes
  from an end tag, the tag is a handled element, and the element has a token object type.
\<close>

definition handleChars :: "tokenizer \<Rightarrow> handler \<Rightarrow> string \<Rightarrow> string \<Rightarrow> bool \<Rightarrow> error + handler" where
  "handleChars tokenize_string h chars_before tag bIsEndTag =
     (if \<not> bIsEndTag then Inr h
      else case map_of (script_handled_elements (script h)) tag of
             None \<Rightarrow> Inr h
           | Some el \<Rightarrow>
               (case el_tokenObjectTypeName el of
                  None \<Rightarrow> Inr h
                | Some tokenObjectTypeName \<Rightarrow>
                    createTokens h tokenObjectTypeName (tokenize_string chars_before)))"

definition createObject :: "handler \<Rightarrow> string \<Rightarrow> SRObject \<times> handler" where
  "createObject h name =
     (let obj = setNonStringFeature (SRObject_init name (curmonad h)) (docIndexFeatureName h)
                  (PInt (curdocindex h))
      in (obj, h\<lparr>curdocindex := curdocindex h + 1,
                 objstacks := AList.update name (dict_get (objstacks h) name [] @ [obj]) (objstacks h)\<rparr>))"

definition endObject :: "handler \<Rightarrow> string \<Rightarrow> error + (SRObject \<times> handler)" where
  "endObject h name =
     (case map_of (objstacks h) name of
        None \<Rightarrow> Inl KeyError
      | Some stack \<Rightarrow>
          if stack = [] then Inl IndexError
          else if objectTypeName (last stack) \<noteq> name then Inl AssertionError
          else
            (let obj = setLastMonad (last stack) (curmonad h - 1)
             in Inr (obj, h\<lparr>objstacks := AList.update name (butlast stack) (objstacks h),
                            objects := AList.update name (dict_get (objects h) name [] @ [obj]) (objects h)\<rparr>)))"

text \<open>\<^verbatim>\<open>needle in haystack\<close> on strings.\<close>

fun starts_with :: "string \<Rightarrow> string \<Rightarrow> bool" where
  "starts_with [] s = True"
| "starts_with (c # cs) [] = False"
| "starts_with (c # cs) (d # ds) = (c = d \<and> starts_with cs ds)"

fun str_contains :: "string \<Rightarrow> string \<Rightarrow> bool" where
  "str_contains needle [] = (needle = [])"
| "str_contains needle (c # cs) = (starts_with needle (c # cs) \<or> str_contains needle cs)"

definition featureTypeIsSTRING :: "string \<Rightarrow> bool" where
  "featureTypeIsSTRING featureType = (if str_contains ''string'' (lower featureType) then True else False)"

text \<open>
  The loop of \<^verbatim>\<open>handleElementStart\<close> over the declared attributes; \<open>attributes\<close> are
  the attributes of the start tag.
\<close>

fun assign_features ::
  "(string \<times> (string \<times> string) list) list \<Rightarrow> (string \<times> string) list \<Rightarrow> SRObject \<Rightarrow> error + SRObject" where
  "assign_features [] attributes obj = Inr obj"
| "assign_features ((key, description) # rest) attributes obj =
     (case map_of attributes key of
        None \<Rightarrow> assign_features rest attributes obj
      | Some v \<Rightarrow>
          (case map_of description ''featureName'' of
             None \<Rightarrow> Inl KeyError
           | Some featureName \<Rightarrow>
               (let featureType = dict_get description ''featureType'' ''STRING''
                in if featureTypeIsSTRING featureType
                   then assign_features rest attributes (setStringFeature obj featureName v)
                   else assign_features rest attributes (setNonStringFeature obj featureName (PStr v)))))"

text \<open>
  \<^verbatim>\<open>handleElementStart\<close>.  The object that \<^verbatim>\<open>createObject\<close> returns is the one it
  pushed, so the features assigned afterwards show on the top of the object stack.
\<close>

definition handleElementStart :: "handler \<Rightarrow> string \<Rightarrow> (string \<times> string) list \<Rightarrow> error + handler" where
  "handleElementStart h tag attributes =
     (case map_of (script_handled_elements (script h)) tag of
        None \<Rightarrow> Inr h
      | Some el \<Rightarrow>
          (let name = el_objectTypeName el;
               (obj, h1) = createObject h name
           in case el_attributes el of
                None \<Rightarrow> Inr h1
              | Some attrs \<Rightarrow>
                  (case assign_features attrs attributes obj of
                     Inl e \<Rightarrow> Inl e
                   | Inr obj' \<Rightarrow>
                       Inr (h1\<lparr>objstacks :=
                                 AList.update name (butlast (dict_get (objstacks h1) name []) @ [obj'])
                                   (objstacks h1)\<rparr>))))"

text \<open>
  The padding loop of \<^verbatim>\<open>handleElementEnd\<close>, on the object and the monad counter:
  \<^verbatim>\<open>while obj.getMonadLength() < minimumMonadLength: obj.setLastMonad(self.curmonad); self.curmonad += 1\<close>.
\<close>

function pad_to_minimum :: "int \<Rightarrow> SRObject \<Rightarrow> int \<Rightarrow> SRObject \<times> int" where
  "pad_to_minimum minimumMonadLength obj cm =
     (if getMonadLength obj < minimumMonadLength
      then pad_to_minimum minimumMonadLength (setLastMonad obj cm) (cm + 1)
      else (obj, cm))"
  by pat_completeness auto
termination
  by (relation "measure (\<lambda>(L, obj, cm).
        if getMonadLength obj < L then 1 + nat (fm obj + L - cm) else 0)")
     (auto simp: getMonadLength_def setLastMonad_def split: if_splits)

declare pad_to_minimum.simps [simp del]

text \<open>
  \<^verbatim>\<open>handleElementEnd\<close>.  The object that \<^verbatim>\<open>endObject\<close> returns is the one it appended
  to the finished objects, so the padding shows on the last finished object of the type.
\<close>

definition handleElementEnd :: "handler \<Rightarrow> string \<Rightarrow> error + handler" where
  "handleElementEnd h tag =
     (case map_of (script_handled_elements (script h)) tag of
        None \<Rightarrow> Inr h
      | Some el \<Rightarrow>
          (let name = el_objectTypeName el
           in case endObject h name of
                Inl e \<Rightarrow> Inl e
              | Inr (obj, h1) \<Rightarrow>
                  (let minimumMonadLength = (case el_minimumMonadLength el of None \<Rightarrow> 1 | Some L \<Rightarrow> L);
                       (obj', cm) = pad_to_minimum minimumMonadLength obj (curmonad h1)
                   in Inr (h1\<lparr>curmonad := cm,
                              objects := AList.update name (butlast (dict_get (objects h1) name []) @ [obj'])
                                           (objects h1)\<rparr>))))"

subsection \<open>The dispatch engine\<close>

definition characters :: "handler \<Rightarrow> string \<Rightarrow> handler" where
  "characters h data = h\<lparr>charstack := charstack h @ [data]\<rparr>"

definition startDocument :: "handler \<Rightarrow> handler" where
  "startDocument h = h"

definition endDocument :: "handler \<Rightarrow> handler" where
  "endDocument h = h"

definition startElement :: "tokenizer \<Rightarrow> handler \<Rightarrow> string \<Rightarrow> (string \<times> string) list \<Rightarrow> error + handler" where
  "startElement tokenize_string h tag attributes =
     (let h1 = h\<lparr>elemstack := elemstack h @ [tag]\<rparr>;
          chars = concat (charstack h1);
          h2 = h1\<lparr>charstack := []\<rparr>
      in case handleChars tokenize_string h2 chars tag False of
           Inl e \<Rightarrow> Inl e
         | Inr h3 \<Rightarrow>
             if tag \<in> nixed_elements h3 then Inr (h3\<lparr>nixing_stack := nixing_stack h3 @ [tag]\<rparr>)
             else if nixing_stack h3 \<noteq> [] then Inr h3
             else if tag \<in> handled_elements h3 then handleElementStart h3 tag attributes
             else if tag \<in> ignored_elements h3 then Inr h3
             else Inl (UnknownStartTag tag))"

definition endElement :: "tokenizer \<Rightarrow> handler \<Rightarrow> string \<Rightarrow> error + handler" where
  "endElement tokenize_string h tag =
     (let chars = concat (charstack h);
          h1 = h\<lparr>charstack := []\<rparr>
      in case handleChars tokenize_string h1 chars tag True of
           Inl e \<Rightarrow> Inl e
         | Inr h2 \<Rightarrow>
             (case (if nixing_stack h2 \<noteq> [] \<and> last (nixing_stack h2) = tag
                    then Inr (h2\<lparr>nixing_stack := butlast (nixing_stack h2)\<rparr>)
                    else if nixing_stack h2 \<noteq> [] then Inr h2
                    else if tag \<in> handled_elements h2 then handleElementEnd h2 tag
                    else if tag \<in> ignored_elements h2 then Inr h2
                    else Inl (UnknownEndTag tag)) of
                Inl e \<Rightarrow> Inl e
              | Inr h3 \<Rightarrow>
                  if elemstack h3 = [] then Inl IndexError
                  else Inr (h3\<lparr>elemstack := butlast (elemstack h3)\<rparr>)))"

text \<open>The events the XML parser delivers to the handler, and a run over a list of them.\<close>

datatype event =
    StartDocument
  | StartElement string "(string \<times> string) list"
  | Characters string
  | EndElement string
  | EndDocument

fun handle_event :: "tokenizer \<Rightarrow> handler \<Rightarrow> event \<Rightarrow> error + handler" where
  "handle_event tk h StartDocument = Inr (startDocument h)"
| "handle_event tk h (StartElement tag attributes) = startElement tk h tag attributes"
| "handle_event tk h (Characters data) = Inr (characters h data)"
| "handle_event tk h (EndElement tag) = endElement tk h tag"
| "handle_event tk h EndDocument = Inr (endDocument h)"

fun feed :: "tokenizer \<Rightarrow> handler \<Rightarrow> event list \<Rightarrow> error + handler" where
  "feed tk h [] = Inr h"
| "feed tk h (ev # evs) =
     (case handle_event tk h ev of Inl e \<Rightarrow> Inl e | Inr h' \<Rightarrow> feed tk h' evs)"

subsection \<open>Rendering the objects\<close>

definition create_objects_header :: "string \<Rightarrow> string" where
  "create_objects_header name = ''CREATE OBJECTS WITH OBJECT TYPE ['' @ name @ '']'' @ [CHR 0x0A]"

text \<open>The loop of \<^verbatim>\<open>dumpMQLObjectType\<close>, with its counter; \<open>dump\<close> is the \<^verbatim>\<open>dumpMQL\<close> of the instances.\<close>

fun dump_object_list :: "('a \<Rightarrow> error + string list) \<Rightarrow> string \<Rightarrow> nat \<Rightarrow> 'a list \<Rightarrow> error + string list" where
  "dump_object_list dump name count [] = Inr []"
| "dump_object_list dump name count (obj # rest) =
     (let count1 = count + 1;
          restart = (count1 = 50000)
      in case dump obj of
           Inl e \<Rightarrow> Inl e
         | Inr ws \<Rightarrow>
             (case dump_object_list dump name (if restart then 0 else count1) rest of
                Inl e \<Rightarrow> Inl e
              | Inr ws' \<Rightarrow>
                  Inr ((if restart then [''GO'' @ [CHR 0x0A], create_objects_header name] else [])
                       @ ws @ ws')))"

definition dumpMQLObjectType :: "('a \<Rightarrow> error + string list) \<Rightarrow> string \<Rightarrow> 'a list \<Rightarrow> error + string list" where
  "dumpMQLObjectType dump name object_list =
     (case dump_object_list dump name 0 object_list of
        Inl e \<Rightarrow> Inl e
      | Inr ws \<Rightarrow> Inr ([create_objects_header name] @ ws @ [''GO'']))"

fun dump_types :: "('a \<Rightarrow> error + string list) \<Rightarrow> (string \<times> 'a list) list \<Rightarrow> string list \<Rightarrow> error + string list" where
  "dump_types dump d [] = Inr []"
| "dump_types dump d (name # names) =
     (case dumpMQLObjectType dump name (dict_get d name []) of
        Inl e \<Rightarrow> Inl e
      | Inr ws \<Rightarrow> (case dump_types dump d names of Inl e \<Rightarrow> Inl e | Inr ws' \<Rightarrow> Inr (ws @ ws')))"

definition dumpMQLObjects :: "handler \<Rightarrow> error + string list" where
  "dumpMQLObjects h =
     (case dump_types SRObject_dumpMQL (objects h) (sort (map fst (objects h))) of
        Inl e \<Rightarrow> Inl e
      | Inr ws \<Rightarrow>
          (case dump_types Token_dumpMQL (tokens h) (sort (map fst (tokens h))) of
             Inl e \<Rightarrow> Inl e
           | Inr ws' \<Rightarrow> Inr (ws @ ws')))"

subsection \<open>Notions used by the properties\<close>

text \<open>What the mangling does to one byte of the encoded string, as one rule.\<close>

definition escaped_byte :: "byte \<Rightarrow> byte list" where
  "escaped_byte c =
     (if c = 0x0A then [0x5C, 0x6E]
      else if c = 0x09 then [0x5C, 0x74]
      else if c = 0x22 then [0x5C, 0x22]
      else if c = 0x5C then [0x5C, 0x5C]
      else if 0x80 \<le> c then [0x5C, 0x78, hexdigit (unat c div 16), hexdigit (unat c mod 16)]
      else [c])"

text \<open>A written chunk is an identifier clause when it starts with \<^verbatim>\<open>WITH ID_D=\<close>.\<close>

definition has_id_clause :: "string list \<Rightarrow> bool" where
  "has_id_clause out = list_ex (starts_with ''WITH ID_D='') out"

definition all_tokens :: "handler \<Rightarrow> Token list" where
  "all_tokens h = concat (map snd (tokens h))"

definition all_objects :: "handler \<Rightarrow> SRObject list" where
  "all_objects h = concat (map snd (objects h))"

subsection \<open>Scenarios\<close>

text \<open>
  Modelled from the spec: \<^verbatim>\<open>latin_tokenizer.tokenize_string\<close> is missing from the
  sources; the specification only requires that the triples, concatenated, give back the
  text.  The scenarios use the tokenizer that makes a non-empty run of text one token
  with empty prefix and suffix.
\<close>

definition tokenize_whole :: tokenizer where
  "tokenize_whole s = (if s = [] then [] else [([], s, [])])"

definition word_parameters :: "int \<Rightarrow> global_parameters_t" where
  "word_parameters inc =
     \<lparr>gp_docIndexFeatureName = ''xmlindex'',
      gp_docIndexIncrementBeforeObjectType = [(''word'', inc)],
      gp_tokenObjectTypeNameList = [''word'']\<rparr>"

definition p_element :: element_description where
  "p_element =
     \<lparr>el_objectTypeName = ''p'', el_tokenObjectTypeName = Some ''word'', el_attributes = None,
      el_minimumMonadLength = Some 1, el_objectRangeType = None\<rparr>"

text \<open>\<open>p\<close> is handled and bears tokens of type \<open>word\<close>; \<open>note\<close> is nixed.\<close>

definition nixing_script :: "int \<Rightarrow> script_t" where
  "nixing_script inc =
     \<lparr>global_parameters = word_parameters inc,
      script_handled_elements = [(''p'', p_element)],
      script_ignored_elements = [],
      script_nixed_elements = [''note'']\<rparr>"

text \<open>\<^verbatim>\<open><p>A<note>B<p>C</p></note>D</p>\<close>\<close>

definition nixing_events :: "event list" where
  "nixing_events =
     [StartDocument,
      StartElement ''p'' [], Characters ''A'',
      StartElement ''note'' [], Characters ''B'',
      StartElement ''p'' [], Characters ''C'', EndElement ''p'',
      EndElement ''note'', Characters ''D'',
      EndElement ''p'',
      EndDocument]"

text \<open>\<open>milestone\<close> is handled, bears no tokens and has minimum monad length 3.\<close>

definition milestone_script :: script_t where
  "milestone_script =
     \<lparr>global_parameters = word_parameters 1,
      script_handled_elements =
        [(''milestone'',
          \<lparr>el_objectTypeName = ''milestone'', el_tokenObjectTypeName = None, el_attributes = None,
           el_minimumMonadLength = Some 3, el_objectRangeType = None\<rparr>)],
      script_ignored_elements = [],
      script_nixed_elements = []\<rparr>"

text \<open>\<^verbatim>\<open><milestone/>\<close>\<close>

definition milestone_events :: "event list" where
  "milestone_events = [StartDocument, StartElement ''milestone'' [], EndElement ''milestone'', EndDocument]"

text \<open>\<open>p\<close> declares the attribute \<open>id\<close> as the string feature \<open>id\<close>.\<close>

definition attribute_script :: script_t where
  "attribute_script =
     \<lparr>global_parameters = word_parameters 1,
      script_handled_elements =
        [(''p'', p_element\<lparr>el_attributes :=
                   Some [(''id'', [(''featureName'', ''id''), (''featureType'', ''STRING'')])]\<rparr>)],
      script_ignored_elements = [],
      script_nixed_elements = []\<rparr>"

text \<open>\<^verbatim>\<open><p>A</p>\<close>\<close>

definition p_events :: "string \<Rightarrow> event list" where
  "p_events chars = [StartDocument, StartElement ''p'' [], Characters chars, EndElement ''p'', EndDocument]"

text \<open>
  Modelled from the spec: the command-line driver is missing from the sources.  A run
  constructs the handler from the script and the initial monad and identifier, and
  delivers the events of one document to it.
\<close>

definition run :: "tokenizer \<Rightarrow> script_t \<Rightarrow> int \<Rightarrow> int \<Rightarrow> event list \<Rightarrow> error + handler" where
  "run tk scr first_monad first_id_d evs =
     (case MQLGeneratorHandler_init scr first_monad first_id_d of
        Inl e \<Rightarrow> Inl e
      | Inr h \<Rightarrow> feed tk h evs)"

text \<open>The token type \<open>word\<close> and the element \<open>p\<close> of the scenarios, after construction.\<close>

definition word_handler :: "int \<Rightarrow> int \<Rightarrow> int \<Rightarrow> error + handler" where
  "word_handler inc first_monad first_id_d = MQLGeneratorHandler_init (nixing_script inc) first_monad first_id_d"

text \<open>
  The invariant of the tokens minted since a handler was constructed with first monad
  \<open>m0\<close> and first identifier \<open>i0\<close>: their identifiers and monads lie between the
  initial and the current counters, the order of the monads is the order of the
  identifiers, and once a token exists, one of them carries the first identifier.
\<close>

definition minted :: "int \<Rightarrow> int \<Rightarrow> Token set \<Rightarrow> int \<Rightarrow> int \<Rightarrow> bool" where
  "minted m0 i0 T cid cm \<longleftrightarrow>
     i0 \<le> cid \<and> m0 \<le> cm
     \<and> (T = {} \<longrightarrow> cid = i0)
     \<and> (T \<noteq> {} \<longrightarrow> (\<exists>t \<in> T. id_d t = i0))
     \<and> (\<forall>t \<in> T. i0 \<le> id_d t \<and> id_d t < cid \<and> m0 \<le> monad t \<and> monad t < cm)
     \<and> (\<forall>t \<in> T. \<forall>u \<in> T. (monad t \<le> monad u) = (id_d t \<le> id_d u))"

definition minted_inv :: "int \<Rightarrow> int \<Rightarrow> handler \<Rightarrow> bool" where
  "minted_inv m0 i0 h = minted m0 i0 (set (all_tokens h)) (curid_d h) (curmonad h)"

section \<open>Properties\<close>

lemmas init_defs = MQLGeneratorHandler_init_def initialize_def makeSchema_def
  global_parameters_keys_def token_schema_features_def ObjectTypeDescription_init_def addFeature_def
  setdefault_list_def dict_get_def word_parameters_def

lemmas step_defs = startElement_def endElement_def handleChars_def handleElementStart_def
  handleElementEnd_def createObject_def endObject_def createToken_def characters_def
  startDocument_def endDocument_def Token_init_def SRObject_init_def setNonStringFeature_def
  setLastMonad_def getMonadLength_def dict_get_def tokenize_whole_def Let_def pad_to_minimum.simps

lemmas dump_defs = dumpMQLObjects_def dumpMQLObjectType_def create_objects_header_def
  SRObject_dumpMQL_def nonstring_feature_line_def string_feature_line_def
  Token_dumpMQL_def token_feature_line_def
  mangleMQLString_def encode_codepoint_def special_re_def upper_bit_re_def
  str_of_bytes_def repr_quote_def repr_byte_def char_of_def bit_Suc bit_0
  str_of_int_def str_of_nat.simps lower_def lower_char_def

lemmas scenario_defs = run_def word_handler_def nixing_script_def p_element_def nixing_events_def
  milestone_script_def milestone_events_def attribute_script_def p_events_def all_tokens_def all_objects_def

subsection \<open>String mangling\<close>

lemma re_sub_special:
  "re_sub special_re special_sub bs =
     Inr (concat (map (\<lambda>c. if special_re c then escaped_byte c else [c]) bs))"
  by (induction bs)
     (simp_all add: special_re_def special_sub_def special_dict_def escaped_byte_def)

lemma re_sub_upper_bit:
  "re_sub upper_bit_re upper_bit_sub bs =
     Inr (concat (map (\<lambda>c. if upper_bit_re c then escaped_byte c else [c]) bs))"
  by (induction bs) (auto simp: upper_bit_re_def upper_bit_sub_def escaped_byte_def)

lemma upper_bit_pass_after_special:
  "concat (map (\<lambda>c. if upper_bit_re c then escaped_byte c else [c])
     (if special_re c then escaped_byte c else [c])) = escaped_byte c"
  by (auto simp: special_re_def upper_bit_re_def escaped_byte_def)

lemma two_passes:
  "concat (map (\<lambda>c. if upper_bit_re c then escaped_byte c else [c])
     (concat (map (\<lambda>c. if special_re c then escaped_byte c else [c]) bs)))
   = concat (map escaped_byte bs)"
  by (induction bs) (simp_all add: upper_bit_pass_after_special)

lemma mangleMQLString_bytes:
  "encode_utf8 u = Inr bs \<Longrightarrow> mangleMQLString u = Inr (concat (map escaped_byte bs))"
  by (simp add: mangleMQLString_def re_sub_special re_sub_upper_bit two_passes)

lemma unhexdigit_hexdigit: "n < 16 \<Longrightarrow> unhexdigit (hexdigit n) = n"
  by (simp add: unhexdigit_def hexdigit_def word_less_nat_alt unat_word_ariths unat_of_nat)

lemma byte_of_nibbles:
  "(of_nat (16 * unhexdigit (hexdigit (unat c div 16))
            + unhexdigit (hexdigit (unat c mod 16))) :: byte) = c"
proof -
  have "unat c < 2 ^ LENGTH(8)" by (rule unsigned_less)
  then have "unat c div 16 < 16" by simp
  then show ?thesis by (simp add: unhexdigit_hexdigit)
qed

lemma unescape_plain: "c \<noteq> 0x5C \<Longrightarrow> unescape (c # ys) = c # unescape ys"
  by (cases ys) simp_all

lemma unescape_escaped_byte: "unescape (escaped_byte c @ ys) = c # unescape ys"
proof (cases "special_re c")
  case True
  then show ?thesis by (auto simp: special_re_def escaped_byte_def)
next
  case plain: False
  show ?thesis
  proof (cases "0x80 \<le> c")
    case True
    with plain show ?thesis
      using byte_of_nibbles [of c] by (simp add: escaped_byte_def special_re_def)
  next
    case False
    with plain show ?thesis by (simp add: escaped_byte_def special_re_def unescape_plain)
  qed
qed

lemma unescape_escaped: "unescape (concat (map escaped_byte bs)) = bs"
  by (induction bs) (simp_all add: unescape_escaped_byte)

text \<open>
  C7 (as amended).  The mangling backslash-escapes the newline, the tab, the quote and
  the backslash, renders every byte with the high bit set as \<^verbatim>\<open>\x\<close> and two lower-case
  hexadecimal digits, and leaves every other byte as it is (the other control characters
  too); unescaping the mangled form of any string gives back its UTF-8 bytes exactly.
\<close>

theorem mangleMQLString_round_trip:
  "encode_utf8 u = Inr bs \<Longrightarrow>
     mangleMQLString u = Inr (concat (map escaped_byte bs))
     \<and> unescape (concat (map escaped_byte bs)) = bs"
  by (simp add: mangleMQLString_bytes unescape_escaped)

text \<open>A quote, a backslash, a newline, a tab and U+00E9, whose encoding has two high-bit bytes.\<close>

theorem mangleMQLString_round_trip_witness:
  "encode_utf8 [0x22, 0x5C, 0x0A, 0x09, 0xE9] = Inr [0x22, 0x5C, 0x0A, 0x09, 0xC3, 0xA9]
   \<and> mangleMQLString [0x22, 0x5C, 0x0A, 0x09, 0xE9]
       = Inr [0x5C, 0x22, 0x5C, 0x5C, 0x5C, 0x6E, 0x5C, 0x74,
              0x5C, 0x78, 0x63, 0x33, 0x5C, 0x78, 0x61, 0x39]
   \<and> unescape [0x5C, 0x22, 0x5C, 0x5C, 0x5C, 0x6E, 0x5C, 0x74,
               0x5C, 0x78, 0x63, 0x33, 0x5C, 0x78, 0x61, 0x39]
       = [0x22, 0x5C, 0x0A, 0x09, 0xC3, 0xA9]"
proof -
  have enc: "encode_utf8 [0x22, 0x5C, 0x0A, 0x09, 0xE9] = Inr [0x22, 0x5C, 0x0A, 0x09, 0xC3, 0xA9]"
    by (simp add: encode_codepoint_def)
  have esc: "concat (map escaped_byte [0x22, 0x5C, 0x0A, 0x09, 0xC3, 0xA9 :: byte])
      = [0x5C, 0x22, 0x5C, 0x5C, 0x5C, 0x6E, 0x5C, 0x74,
         0x5C, 0x78, 0x63, 0x33, 0x5C, 0x78, 0x61, 0x39]"
    by (simp add: escaped_byte_def hexdigit_def)
  show ?thesis
    using mangleMQLString_round_trip [OF enc] enc esc by simp
qed

text \<open>The carriage return is a control character, and it is not escaped.\<close>

theorem mangleMQLString_carriage_return:
  "mangleMQLString [0x0D] = Inr [0x0D]"
  by (simp add: mangleMQLString_def encode_codepoint_def special_re_def upper_bit_re_def)

subsection \<open>Closing an object\<close>

lemma pad_to_minimum_result:
  "pad_to_minimum L obj cm = (obj', cm') \<Longrightarrow>
     fm obj' = fm obj \<and> objectTypeName obj' = objectTypeName obj \<and> cm \<le> cm'
     \<and> L \<le> getMonadLength obj' \<and> (fm obj \<le> lm obj \<longrightarrow> fm obj' \<le> lm obj')"
proof (induction L obj cm arbitrary: obj' cm' rule: pad_to_minimum.induct)
  case (1 L obj cm)
  show ?case
  proof (cases "getMonadLength obj < L")
    case True
    then have "pad_to_minimum L (setLastMonad obj cm) (cm + 1) = (obj', cm')"
      using "1.prems" by (simp add: pad_to_minimum.simps [of L obj cm])
    from "1.IH" [OF True this] show ?thesis
      by (auto simp: setLastMonad_def split: if_splits)
  next
    case False
    then have "obj' = obj" "cm' = cm"
      using "1.prems" by (simp_all add: pad_to_minimum.simps [of L obj cm])
    with False show ?thesis by simp
  qed
qed




subsection \<open>The minted tokens\<close>

lemma minted_mono:
  assumes "minted m0 i0 T cid cm" "cm \<le> cm'"
  shows "minted m0 i0 T cid cm'"
proof -
  from assms(1) have b: "\<forall>t \<in> T. i0 \<le> id_d t \<and> id_d t < cid \<and> m0 \<le> monad t \<and> monad t < cm"
    and rest: "i0 \<le> cid" "m0 \<le> cm" "T = {} \<longrightarrow> cid = i0" "T \<noteq> {} \<longrightarrow> (\<exists>t \<in> T. id_d t = i0)"
      "\<forall>t \<in> T. \<forall>u \<in> T. (monad t \<le> monad u) = (id_d t \<le> id_d u)"
    unfolding minted_def by blast+
  from b assms(2) have "\<forall>t \<in> T. i0 \<le> id_d t \<and> id_d t < cid \<and> m0 \<le> monad t \<and> monad t < cm'"
    by fastforce
  moreover from rest(2) assms(2) have "m0 \<le> cm'" by simp
  ultimately show ?thesis unfolding minted_def using rest by blast
qed

lemma minted_insert:
  assumes "minted m0 i0 T cid cm" "id_d t = cid" "monad t = cm"
  shows "minted m0 i0 (insert t T) (cid + 1) (cm + 1)"
proof -
  from assms(1) have a: "i0 \<le> cid" "m0 \<le> cm"
    and e: "T = {} \<longrightarrow> cid = i0"
    and x: "T \<noteq> {} \<longrightarrow> (\<exists>t \<in> T. id_d t = i0)"
    and b: "\<forall>u \<in> T. i0 \<le> id_d u \<and> id_d u < cid \<and> m0 \<le> monad u \<and> monad u < cm"
    and ord: "\<forall>u \<in> T. \<forall>v \<in> T. (monad u \<le> monad v) = (id_d u \<le> id_d v)"
    unfolding minted_def by blast+
  have 1: "\<exists>u \<in> insert t T. id_d u = i0"
  proof (cases "T = {}")
    case True
    with e assms(2) show ?thesis by simp
  next
    case False
    with x show ?thesis by blast
  qed
  have 2: "\<forall>u \<in> insert t T. i0 \<le> id_d u \<and> id_d u < cid + 1 \<and> m0 \<le> monad u \<and> monad u < cm + 1"
  proof
    fix u assume "u \<in> insert t T"
    then consider "u = t" | "u \<in> T" by blast
    then show "i0 \<le> id_d u \<and> id_d u < cid + 1 \<and> m0 \<le> monad u \<and> monad u < cm + 1"
    proof cases
      case 1
      with a assms(2,3) show ?thesis by simp
    next
      case 2
      with b have "i0 \<le> id_d u \<and> id_d u < cid \<and> m0 \<le> monad u \<and> monad u < cm" by blast
      then show ?thesis by simp
    qed
  qed
  have 3: "\<forall>u \<in> insert t T. \<forall>v \<in> insert t T. (monad u \<le> monad v) = (id_d u \<le> id_d v)"
  proof (intro ballI)
    fix u v assume "u \<in> insert t T" "v \<in> insert t T"
    then consider "u = t" "v = t" | "u = t" "v \<in> T" | "u \<in> T" "v = t" | "u \<in> T" "v \<in> T"
      by blast
    then show "(monad u \<le> monad v) = (id_d u \<le> id_d v)"
    proof cases
      case 1
      then show ?thesis by simp
    next
      case 2
      with b have "id_d v < cid \<and> monad v < cm" by blast
      with 2 assms(2,3) show ?thesis by simp
    next
      case 3
      with b have "id_d u < cid \<and> monad u < cm" by blast
      with 3 assms(2,3) show ?thesis by simp
    next
      case 4
      with ord show ?thesis by blast
    qed
  qed
  have 4: "i0 \<le> cid + 1" "m0 \<le> cm + 1" using a by simp_all
  show ?thesis unfolding minted_def using 1 2 3 4 by blast
qed

lemma minted_first:
  assumes "minted m0 i0 T cid cm" "u \<in> T"
  shows "(id_d u = i0) = (\<forall>v \<in> T. monad u \<le> monad v)"
proof -
  from assms(1) have x: "T \<noteq> {} \<longrightarrow> (\<exists>t \<in> T. id_d t = i0)"
    and b: "\<forall>t \<in> T. i0 \<le> id_d t"
    and ord: "\<forall>t \<in> T. \<forall>v \<in> T. (monad t \<le> monad v) = (id_d t \<le> id_d v)"
    unfolding minted_def by blast+
  show ?thesis
  proof
    assume "id_d u = i0"
    with b have "\<forall>v \<in> T. id_d u \<le> id_d v" by simp
    with ord assms(2) show "\<forall>v \<in> T. monad u \<le> monad v" by blast
  next
    assume least: "\<forall>v \<in> T. monad u \<le> monad v"
    from x assms(2) obtain t where t: "t \<in> T" "id_d t = i0" by blast
    with least have "monad u \<le> monad t" by blast
    with ord assms(2) t(1) have "id_d u \<le> id_d t" by blast
    moreover from b assms(2) have "i0 \<le> id_d u" by blast
    ultimately show "id_d u = i0" using t(2) by simp
  qed
qed

lemma minted_bounds:
  "minted m0 i0 T cid cm \<Longrightarrow> t \<in> T \<Longrightarrow>
     i0 \<le> id_d t \<and> id_d t < cid \<and> m0 \<le> monad t \<and> monad t < cm"
  unfolding minted_def by blast

lemma minted_inv_frame:
  "minted_inv m0 i0 h \<Longrightarrow> tokens h' = tokens h \<Longrightarrow> curid_d h' = curid_d h \<Longrightarrow>
     curmonad h \<le> curmonad h' \<Longrightarrow> minted_inv m0 i0 h'"
  unfolding minted_inv_def all_tokens_def by (simp add: minted_mono)

lemma set_concat_update:
  "map_of al k = Some ts \<Longrightarrow>
     set (concat (map snd (AList.update k (ts @ [t]) al))) = insert t (set (concat (map snd al)))"
  by (induction al) (auto split: if_splits)

lemma createToken_result:
  assumes "createToken h n p s x = Inr h'"
  shows "\<exists>t. set (all_tokens h') = insert t (set (all_tokens h)) \<and> id_d t = curid_d h \<and> monad t = curmonad h
           \<and> curid_d h' = curid_d h + 1 \<and> curmonad h' = curmonad h + 1"
proof -
  from assms obtain ts where ts: "map_of (tokens h) n = Some ts"
    by (auto simp: createToken_def Let_def split: option.splits)
  define inc where "inc = min 1 (dict_get (gp_docIndexIncrementBeforeObjectType (global_parameters (script h))) n 1)"
  define t where "t = Token_init (curmonad h) p s x (curdocindex h + inc) (curid_d h)"
  from assms ts have h': "h' = h\<lparr>curmonad := curmonad h + 1, curid_d := curid_d h + 1,
        curdocindex := curdocindex h + inc + 1,
        tokens := AList.update n (ts @ [t]) (tokens h)\<rparr>"
    by (simp add: createToken_def Let_def t_def inc_def)
  have "set (all_tokens h') = insert t (set (all_tokens h))"
    unfolding all_tokens_def h' using set_concat_update [OF ts, of t] by simp
  moreover have "id_d t = curid_d h" "monad t = curmonad h" by (simp_all add: t_def Token_init_def)
  moreover have "curid_d h' = curid_d h + 1" "curmonad h' = curmonad h + 1" by (simp_all add: h')
  ultimately show ?thesis by blast
qed

lemma createToken_inv:
  assumes "createToken h n p s x = Inr h'" "minted_inv m0 i0 h"
  shows "minted_inv m0 i0 h'"
proof -
  from createToken_result [OF assms(1)] obtain t where
    t: "set (all_tokens h') = insert t (set (all_tokens h))" "id_d t = curid_d h" "monad t = curmonad h"
    and c: "curid_d h' = curid_d h + 1" "curmonad h' = curmonad h + 1"
    by blast
  from minted_insert [OF assms(2) [unfolded minted_inv_def] t(2,3)]
  show ?thesis unfolding minted_inv_def t(1) c .
qed

lemma handleElementStart_frame:
  "handleElementStart h tag attrs = Inr h' \<Longrightarrow>
     tokens h' = tokens h \<and> curid_d h' = curid_d h \<and> curmonad h' = curmonad h"
  by (auto simp: handleElementStart_def createObject_def Let_def split: option.splits sum.splits)

lemma endObject_frame:
  "endObject h name = Inr (obj, h1) \<Longrightarrow>
     tokens h1 = tokens h \<and> curid_d h1 = curid_d h \<and> curmonad h1 = curmonad h"
  by (auto simp: endObject_def Let_def split: option.splits if_splits)

lemma handleElementEnd_frame:
  assumes "handleElementEnd h tag = Inr h'"
  shows "tokens h' = tokens h \<and> curid_d h' = curid_d h \<and> curmonad h \<le> curmonad h'"
proof (cases "map_of (script_handled_elements (script h)) tag")
  case None
  with assms show ?thesis by (simp add: handleElementEnd_def)
next
  case (Some el)
  let ?L = "case el_minimumMonadLength el of None \<Rightarrow> 1 | Some L \<Rightarrow> L"
  from assms Some obtain obj h1 where eo: "endObject h (el_objectTypeName el) = Inr (obj, h1)"
    by (auto simp: handleElementEnd_def Let_def split: sum.splits)
  obtain obj' cm where pad: "pad_to_minimum ?L obj (curmonad h1) = (obj', cm)"
    by (cases "pad_to_minimum ?L obj (curmonad h1)")
  from assms Some eo pad have h': "h' = h1\<lparr>curmonad := cm,
      objects := AList.update (el_objectTypeName el)
                   (butlast (dict_get (objects h1) (el_objectTypeName el) []) @ [obj']) (objects h1)\<rparr>"
    by (simp add: handleElementEnd_def Let_def)
  from endObject_frame [OF eo] pad_to_minimum_result [OF pad] show ?thesis by (simp add: h')
qed

lemma handleChars_start: "handleChars tk h chars tag False = Inr h"
  by (simp add: handleChars_def)

lemma handleElementStart_keeps:
  "handleElementStart h tag attrs = Inr h' \<Longrightarrow>
     charstack h' = charstack h \<and> elemstack h' = elemstack h"
  by (auto simp: handleElementStart_def createObject_def Let_def split: option.splits sum.splits)

lemma startElement_flush:
  assumes "startElement tk h tag attrs = Inr h'"
  shows "charstack h' = [] \<and> elemstack h' = elemstack h @ [tag] \<and> tokens h' = tokens h
           \<and> curmonad h' = curmonad h \<and> curid_d h' = curid_d h"
proof -
  let ?h3 = "h\<lparr>elemstack := elemstack h @ [tag], charstack := []\<rparr>"
  have unfold: "startElement tk h tag attrs =
      (if tag \<in> nixed_elements h then Inr (?h3\<lparr>nixing_stack := nixing_stack h @ [tag]\<rparr>)
       else if nixing_stack h \<noteq> [] then Inr ?h3
       else if tag \<in> handled_elements h then handleElementStart ?h3 tag attrs
       else if tag \<in> ignored_elements h then Inr ?h3
       else Inl (UnknownStartTag tag))"
    by (simp add: startElement_def handleChars_start Let_def)
  show ?thesis
  proof (cases "tag \<in> nixed_elements h")
    case True
    with assms have "h' = ?h3\<lparr>nixing_stack := nixing_stack h @ [tag]\<rparr>" by (simp add: unfold)
    then show ?thesis by simp
  next
    case not_nixed: False
    show ?thesis
    proof (cases "nixing_stack h \<noteq> [] \<or> tag \<notin> handled_elements h")
      case True
      with not_nixed assms have "h' = ?h3"
        by (cases "nixing_stack h \<noteq> []"; cases "tag \<in> ignored_elements h") (simp_all add: unfold)
      then show ?thesis by simp
    next
      case False
      with not_nixed assms have s: "handleElementStart ?h3 tag attrs = Inr h'" by (simp add: unfold)
      from handleElementStart_frame [OF s] handleElementStart_keeps [OF s] show ?thesis by simp
    qed
  qed
qed

text \<open>
  What every event preserves: a property of the handler that minting a token preserves,
  and that depends only on the tokens, the identifier counter and a lower bound of the
  monad counter.
\<close>

lemma createTokens_preserves:
  assumes mint: "\<And>h n p s x h'. createToken h n p s x = Inr h' \<Longrightarrow> P h \<Longrightarrow> P h'"
  shows "createTokens h n triples = Inr h' \<Longrightarrow> P h \<Longrightarrow> P h'"
proof (induction triples arbitrary: h)
  case Nil
  then show ?case by simp
next
  case (Cons a triples)
  obtain p s x where a: "a = (p, s, x)" by (cases a)
  from Cons.prems(1) obtain h1 where 1: "createToken h n p s x = Inr h1"
    and 2: "createTokens h1 n triples = Inr h'"
    by (auto simp: a split: sum.splits)
  from Cons.IH [OF 2 mint [OF 1 Cons.prems(2)]] show ?case .
qed

lemma handleChars_preserves:
  assumes mint: "\<And>h n p s x h'. createToken h n p s x = Inr h' \<Longrightarrow> P h \<Longrightarrow> P h'"
    and "handleChars tk h chars tag b = Inr h'" "P h"
  shows "P h'"
proof (cases "h' = h")
  case True
  with assms(3) show ?thesis by simp
next
  case False
  with assms(2) obtain n where "createTokens h n (tk chars) = Inr h'"
    by (auto simp: handleChars_def split: if_splits option.splits)
  from createTokens_preserves [of P, OF mint this assms(3)] show ?thesis .
qed

lemma startElement_preserves:
  assumes frame: "\<And>h h'. P h \<Longrightarrow> tokens h' = tokens h \<Longrightarrow> curid_d h' = curid_d h \<Longrightarrow>
                    curmonad h \<le> curmonad h' \<Longrightarrow> P h'"
    and "startElement tk h tag attrs = Inr h'" "P h"
  shows "P h'"
proof -
  from startElement_flush [OF assms(2)] show ?thesis
    by (intro frame [OF assms(3)]) simp_all
qed

lemma endElement_preserves:
  assumes frame: "\<And>h h'. P h \<Longrightarrow> tokens h' = tokens h \<Longrightarrow> curid_d h' = curid_d h \<Longrightarrow>
                    curmonad h \<le> curmonad h' \<Longrightarrow> P h'"
    and mint: "\<And>h n p s x h'. createToken h n p s x = Inr h' \<Longrightarrow> P h \<Longrightarrow> P h'"
    and "endElement tk h tag = Inr h'" "P h"
  shows "P h'"
proof -
  let ?h1 = "h\<lparr>charstack := []\<rparr>"
  have i1: "P ?h1" by (rule frame [OF assms(4)]) simp_all
  obtain h2 where hc: "handleChars tk ?h1 (concat (charstack h)) tag True = Inr h2"
  proof (cases "handleChars tk ?h1 (concat (charstack h)) tag True")
    case (Inl e)
    with assms(3) show ?thesis by (simp add: endElement_def Let_def)
  next
    case (Inr h2)
    then show ?thesis by (rule that)
  qed
  from handleChars_preserves [of P, OF mint hc i1] have i2: "P h2" .
  have unfold: "endElement tk h tag =
      (case (if nixing_stack h2 \<noteq> [] \<and> last (nixing_stack h2) = tag
             then Inr (h2\<lparr>nixing_stack := butlast (nixing_stack h2)\<rparr>)
             else if nixing_stack h2 \<noteq> [] then Inr h2
             else if tag \<in> handled_elements h2 then handleElementEnd h2 tag
             else if tag \<in> ignored_elements h2 then Inr h2
             else Inl (UnknownEndTag tag)) of
         Inl e \<Rightarrow> Inl e
       | Inr h3 \<Rightarrow>
           if elemstack h3 = [] then Inl IndexError
           else Inr (h3\<lparr>elemstack := butlast (elemstack h3)\<rparr>))"
    by (simp add: endElement_def Let_def hc)
  have pop: "P h'" if "P h3" "h' = h3\<lparr>elemstack := butlast (elemstack h3)\<rparr>" for h3
    unfolding that(2) by (rule frame [OF that(1)]) simp_all
  show ?thesis
  proof (cases "nixing_stack h2 \<noteq> []")
    case True
    show ?thesis
    proof (cases "last (nixing_stack h2) = tag")
      case same: True
      with True assms(3) have "h' = (h2\<lparr>nixing_stack := butlast (nixing_stack h2)\<rparr>)
          \<lparr>elemstack := butlast (elemstack (h2\<lparr>nixing_stack := butlast (nixing_stack h2)\<rparr>))\<rparr>"
        by (simp add: unfold split: if_splits)
      moreover have "P (h2\<lparr>nixing_stack := butlast (nixing_stack h2)\<rparr>)"
        by (rule frame [OF i2]) simp_all
      ultimately show ?thesis by (intro pop)
    next
      case False
      with True assms(3) have "h' = h2\<lparr>elemstack := butlast (elemstack h2)\<rparr>"
        by (simp add: unfold split: if_splits)
      with i2 show ?thesis by (intro pop)
    qed
  next
    case empty: False
    show ?thesis
    proof (cases "tag \<in> handled_elements h2")
      case True
      obtain h3 where 3: "handleElementEnd h2 tag = Inr h3"
      proof (cases "handleElementEnd h2 tag")
        case (Inl e)
        with empty True assms(3) show ?thesis by (simp add: unfold)
      next
        case (Inr h3)
        then show ?thesis by (rule that)
      qed
      with empty True assms(3) have h': "h' = h3\<lparr>elemstack := butlast (elemstack h3)\<rparr>"
        by (simp add: unfold split: if_splits)
      from handleElementEnd_frame [OF 3] have "P h3"
        by (intro frame [OF i2]) simp_all
      then show ?thesis using h' by (rule pop)
    next
      case False
      with empty assms(3) have "h' = h2\<lparr>elemstack := butlast (elemstack h2)\<rparr>"
        by (cases "tag \<in> ignored_elements h2") (simp_all add: unfold split: if_splits)
      with i2 show ?thesis by (intro pop)
    qed
  qed
qed

lemma handle_event_preserves:
  assumes frame: "\<And>h h'. P h \<Longrightarrow> tokens h' = tokens h \<Longrightarrow> curid_d h' = curid_d h \<Longrightarrow>
                    curmonad h \<le> curmonad h' \<Longrightarrow> P h'"
    and mint: "\<And>h n p s x h'. createToken h n p s x = Inr h' \<Longrightarrow> P h \<Longrightarrow> P h'"
    and "handle_event tk h ev = Inr h'" "P h"
  shows "P h'"
proof (cases ev)
  case StartDocument
  with assms(3,4) show ?thesis by (simp add: startDocument_def)
next
  case (StartElement tag attrs)
  with assms(3) have "startElement tk h tag attrs = Inr h'" by simp
  from startElement_preserves [of P, OF frame this assms(4)] show ?thesis .
next
  case (Characters data)
  with assms(3) have "h' = h\<lparr>charstack := charstack h @ [data]\<rparr>" by (simp add: characters_def)
  then show ?thesis by (intro frame [OF assms(4)]) simp_all
next
  case (EndElement tag)
  with assms(3) have "endElement tk h tag = Inr h'" by simp
  from endElement_preserves [of P, OF frame mint this assms(4)] show ?thesis .
next
  case EndDocument
  with assms(3,4) show ?thesis by (simp add: endDocument_def)
qed

lemma feed_preserves:
  assumes frame: "\<And>h h'. P h \<Longrightarrow> tokens h' = tokens h \<Longrightarrow> curid_d h' = curid_d h \<Longrightarrow>
                    curmonad h \<le> curmonad h' \<Longrightarrow> P h'"
    and mint: "\<And>h n p s x h'. createToken h n p s x = Inr h' \<Longrightarrow> P h \<Longrightarrow> P h'"
  shows "feed tk h evs = Inr h' \<Longrightarrow> P h \<Longrightarrow> P h'"
proof (induction evs arbitrary: h)
  case Nil
  then show ?case by simp
next
  case (Cons ev evs)
  from Cons.prems(1) obtain h1 where 1: "handle_event tk h ev = Inr h1" and 2: "feed tk h1 evs = Inr h'"
    by (auto split: sum.splits)
  from Cons.IH [OF 2 handle_event_preserves [of P, OF frame mint 1 Cons.prems(2)]] show ?case .
qed

lemma feed_inv:
  "feed tk h evs = Inr h' \<Longrightarrow> minted_inv m0 i0 h \<Longrightarrow> minted_inv m0 i0 h'"
  by (rule feed_preserves [of "minted_inv m0 i0", OF minted_inv_frame createToken_inv])

lemma feed_counters:
  assumes "feed tk h evs = Inr h'"
  shows "curmonad h \<le> curmonad h' \<and> curid_d h \<le> curid_d h'"
proof -
  define P :: "handler \<Rightarrow> bool" where "P k \<longleftrightarrow> curmonad h \<le> curmonad k \<and> curid_d h \<le> curid_d k" for k
  have frame: "P k'"
    if "P k" "tokens k' = tokens k" "curid_d k' = curid_d k" "curmonad k \<le> curmonad k'" for k k'
    using that by (simp add: P_def)
  have mint: "P k'" if "createToken k n p s x = Inr k'" "P k" for k n p s x k'
    using createToken_result [OF that(1)] that(2) by (auto simp: P_def)
  have start: "P h" by (simp add: P_def)
  have "P h'"
  proof (rule feed_preserves [of P tk h evs h'])
    show "P k'"
      if "P k" "tokens k' = tokens k" "curid_d k' = curid_d k" "curmonad k \<le> curmonad k'" for k k'
      using that by (rule frame)
    show "P k'" if "createToken k n p s x = Inr k'" "P k" for k n p s x k'
      using that by (rule mint)
    show "feed tk h evs = Inr h'" by (rule assms)
    show "P h" by (rule start)
  qed
  then show ?thesis by (simp add: P_def)
qed

subsection \<open>Construction\<close>

lemma setdefault_list_keeps_empty:
  "\<forall>kv \<in> set d. snd kv = [] \<Longrightarrow> \<forall>kv \<in> set (setdefault_list d k). snd kv = []"
  by (auto simp: setdefault_list_def split: option.splits)

lemma setdefault_list_empty:
  "\<forall>kv \<in> set d. snd kv = [] \<Longrightarrow> \<forall>kv \<in> set (foldl setdefault_list d names). snd kv = []"
proof (induction names arbitrary: d)
  case Nil
  then show ?case by simp
next
  case (Cons k names)
  from Cons.IH [OF setdefault_list_keeps_empty [OF Cons.prems]] show ?case by simp
qed

lemma concat_all_empty: "\<forall>kv \<in> set d. snd kv = [] \<Longrightarrow> concat (map snd d) = []"
  by (induction d) auto

lemma makeSchema_frame:
  "makeSchema h = Inr h' \<Longrightarrow> \<exists>sch. h' = h\<lparr>schema := sch\<rparr>"
  by (auto simp: makeSchema_def split: sum.splits)

lemma init_result:
  assumes "MQLGeneratorHandler_init scr first_monad first_id_d = Inr h"
  shows "curmonad h = first_monad" "curid_d h = first_id_d" "curdocindex h = 1"
    "all_tokens h = []" "elemstack h = []"
proof -
  from makeSchema_frame [OF assms [unfolded MQLGeneratorHandler_init_def]]
  obtain sch where h: "h = (initialize
       \<lparr>elemstack = [], charstack = [], nixing_stack = [],
        nixed_elements = {}, ignored_elements = {}, handled_elements = {},
        objstacks = [], objects = [], script = scr, schema = [],
        curdocindex = 1, curmonad = first_monad, curid_d = first_id_d,
        docIndexFeatureName = [], tokens = []\<rparr>)\<lparr>schema := sch\<rparr>"
    by blast
  show "curmonad h = first_monad" "curid_d h = first_id_d" "curdocindex h = 1" "elemstack h = []"
    by (simp_all add: h initialize_def)
  have "\<forall>kv \<in> set (foldl setdefault_list [] (gp_tokenObjectTypeNameList (global_parameters scr))). snd kv = []"
    by (rule setdefault_list_empty) simp
  then show "all_tokens h = []"
    by (simp add: h initialize_def all_tokens_def concat_all_empty)
qed

lemma init_inv:
  assumes "MQLGeneratorHandler_init scr first_monad first_id_d = Inr h"
  shows "minted_inv first_monad first_id_d h"
  using init_result [OF assms] by (simp add: minted_inv_def minted_def)

subsection \<open>Rendering\<close>

lemma encode_utf8_string: "\<exists>bs. encode_utf8 (map of_char (s :: string)) = Inr bs"
proof (induction s)
  case Nil
  show ?case by simp
next
  case (Cons c s)
  have "(of_char c :: nat) < 0x800" using nat_of_char_less_256 [of c] by linarith
  then have "\<exists>bs. encode_codepoint (of_char c) = Inr bs"
    unfolding encode_codepoint_def by (cases "(of_char c :: nat) < 0x80") simp_all
  with Cons show ?case by auto
qed

lemma mangleMQLString_string: "\<exists>bs. mangleMQLString (map of_char (s :: string)) = Inr bs"
  using encode_utf8_string [of s] mangleMQLString_bytes by blast

lemma string_feature_lines_result:
  "\<exists>ls. string_feature_lines fs = Inr ls \<and> \<not> list_ex (starts_with ''WITH ID_D='') ls"
proof (induction fs)
  case Nil
  show ?case by simp
next
  case (Cons f fs)
  obtain key v where f: "f = (key, v)" by (cases f)
  from mangleMQLString_string [of v] obtain bs where "mangleMQLString (map of_char v) = Inr bs" ..
  with Cons show ?case by (auto simp: f string_feature_line_def)
qed

lemma nonstring_lines_no_clause:
  "\<not> list_ex (starts_with ''WITH ID_D='') (map (\<lambda>(key, v). nonstring_feature_line key v) fs)"
  by (induction fs) (auto simp: nonstring_feature_line_def)

lemma SRObject_dumpMQL_clause:
  "\<exists>out. SRObject_dumpMQL obj = Inr out \<and> (has_id_clause out \<longleftrightarrow> obj_id_d obj \<noteq> 0)"
proof -
  from string_feature_lines_result [of "stringFeatures obj"] obtain ls
    where ls: "string_feature_lines (stringFeatures obj) = Inr ls"
      "\<not> list_ex (starts_with ''WITH ID_D='') ls" by blast
  then show ?thesis
    using nonstring_lines_no_clause [of "nonStringFeatures obj"]
    by (simp add: SRObject_dumpMQL_def has_id_clause_def)
qed

lemma Token_dumpMQL_clause:
  "\<exists>out. Token_dumpMQL t = Inr out \<and> (has_id_clause out \<longleftrightarrow> id_d t \<noteq> 0)"
proof -
  from mangleMQLString_string [of "prefix t"] obtain b1 where 1: "mangleMQLString (map of_char (prefix t)) = Inr b1" ..
  from mangleMQLString_string [of "surface t"] obtain b2 where 2: "mangleMQLString (map of_char (surface t)) = Inr b2" ..
  from mangleMQLString_string [of "suffix t"] obtain b3 where 3: "mangleMQLString (map of_char (suffix t)) = Inr b3" ..
  from mangleMQLString_string [of "lower (surface t)"] obtain b4 where 4: "mangleMQLString (map of_char (lower (surface t))) = Inr b4" ..
  show ?thesis
    by (simp add: Token_dumpMQL_def token_feature_line_def 1 2 3 4 has_id_clause_def Let_def)
qed

subsection \<open>Minimum monad length\<close>





subsection \<open>Nixed subtrees and text flushes\<close>

text \<open>
  C1 (the code departs from it).  With \<open>note\<close> nixed and \<open>p\<close> handled and bearing tokens,
  the run over \<^verbatim>\<open><p>A<note>B<p>C</p></note>D</p>\<close> creates one object, for the outer \<open>p\<close>, and
  no object for the inner one; but the text \<open>C\<close>, inside the nixed subtree, is minted as
  a token at monad 1: \<^verbatim>\<open>endElement\<close> calls \<^verbatim>\<open>handleChars\<close> before it looks at the nixing
  stack, and \<^verbatim>\<open>handleChars\<close> does not look at it.  The rendered objects hold the
  chunk \<^verbatim>\<open>surface:"b'C'";\<close> (Python 3 formats the mangled bytes as their \<^verbatim>\<open>repr\<close>).
\<close>

theorem nixed_subtree_text_is_tokenized:
  "map_sum id (\<lambda>h. (map (\<lambda>t. (surface t, monad t)) (all_tokens h),
                     map (\<lambda>obj. (objectTypeName obj, fm obj, lm obj)) (all_objects h)))
     (run tokenize_whole (nixing_script 1) 1 0 nixing_events)
   = Inr ([(''C'', 1), (''D'', 2)], [(''p'', 1, 2)])
   \<and> map_sum id (\<lambda>out. ''surface:'' @ [CHR 0x22] @ ''b'' @ [CHR 0x27] @ ''C''
                          @ [CHR 0x27, CHR 0x22] @ '';'' @ [CHR 0x0A] \<in> set out)
       (case run tokenize_whole (nixing_script 1) 1 0 nixing_events of
          Inl e \<Rightarrow> Inl e
        | Inr h \<Rightarrow> dumpMQLObjects h) = Inr True"
  by (simp add: scenario_defs init_defs step_defs dump_defs)





subsection \<open>The document index\<close>

text \<open>
  C2 (the code departs from it).  With the pre-increment of \<open>word\<close> configured as \<open>-5\<close>,
  minting one token takes the document-index counter from 1 to \<open>-3\<close>: the source takes
  \<^verbatim>\<open>min(1, configured)\<close>, which caps the increment at 1 and lets a negative one through.
\<close>

theorem docindex_counter_decreases:
  "map_sum id curdocindex (word_handler (- 5) 1 0) = Inr 1
   \<and> map_sum id (\<lambda>h. (curdocindex h, map xmlindex (all_tokens h)))
       (case word_handler (- 5) 1 0 of
          Inl e \<Rightarrow> Inl e
        | Inr h \<Rightarrow> createToken h ''word'' [] ''A'' []) = Inr (- 3, [- 4])"
  by (simp add: scenario_defs init_defs step_defs)

text \<open>
  C5 (the code departs from it).  With the pre-increment of \<open>word\<close> configured as 3,
  minting one token from document index 1 gives the token the index 2 and leaves the counter
  at 3: the increment applied is \<^verbatim>\<open>min(1, 3) = 1\<close>, not 3.
\<close>

theorem configured_increment_is_capped:
  "map_sum id curdocindex (word_handler 3 1 0) = Inr 1
   \<and> map_sum id (\<lambda>h. (curdocindex h, map xmlindex (all_tokens h)))
       (case word_handler 3 1 0 of
          Inl e \<Rightarrow> Inl e
        | Inr h \<Rightarrow> createToken h ''word'' [] ''A'' []) = Inr (3, [2])"
  by (simp add: scenario_defs init_defs step_defs)

subsection \<open>The schema\<close>

text \<open>
  C8 (the code departs from it).  For a script whose token type list is \<open>[word]\<close> and whose
  element \<open>p\<close> declares the attribute \<open>id\<close> as the string feature \<open>id\<close>, the schema has
  entries named after the three keys of the global parameters and an entry for \<open>p\<close>; it has
  no entry for \<open>word\<close>, and the entry for \<open>p\<close> has the document-index feature only.
\<close>

theorem makeSchema_misses_token_types:
  "map_sum id (\<lambda>h. (map fst (schema h), map_of (schema h) ''word'',
                     map_option features (map_of (schema h) ''p'')))
     (MQLGeneratorHandler_init attribute_script 1 0)
   = Inr ([''docIndexFeatureName'', ''docIndexIncrementBeforeObjectType'',
           ''tokenObjectTypeNameList'', ''p''],
          None,
          Some [(''xmlindex'', ''INTEGER'')])"
  by (simp add: scenario_defs init_defs Let_def)

subsection \<open>End of input\<close>





subsection \<open>Identifiers\<close>

lemma first_token_has_first_id:
  assumes "MQLGeneratorHandler_init scr first_monad first_id_d = Inr h0" "feed tk h0 evs = Inr h"
    "u \<in> set (all_tokens h)"
  shows "(id_d u = first_id_d) = (\<forall>v \<in> set (all_tokens h). monad u \<le> monad v)"
  using minted_first [OF feed_inv [OF assms(2) init_inv [OF assms(1)], unfolded minted_inv_def] assms(3)] .

text \<open>
  C10.  Rendering a token or a structural object always succeeds, and the output has an
  identifier clause (a chunk starting with \<^verbatim>\<open>WITH ID_D=\<close>) exactly when the identifier of
  the instance is not zero.  In any run of a handler constructed with first identifier 0,
  the token whose identifier is 0 is the first one minted, that is, the one with the least
  monad (each minting takes the current monad and advances the counter); so the first
  minted token is rendered without an identifier clause and every later one with it.
\<close>

theorem id_clause_iff_nonzero:
  "(\<exists>out. Token_dumpMQL t = Inr out \<and> (has_id_clause out \<longleftrightarrow> id_d t \<noteq> 0))
   \<and> (\<exists>out. SRObject_dumpMQL obj = Inr out \<and> (has_id_clause out \<longleftrightarrow> obj_id_d obj \<noteq> 0))
   \<and> (MQLGeneratorHandler_init scr first_monad 0 = Inr h0 \<and> feed tk h0 evs = Inr h
        \<and> u \<in> set (all_tokens h) \<longrightarrow>
          ((id_d u = 0) = (\<forall>v \<in> set (all_tokens h). monad u \<le> monad v))
          \<and> (\<exists>out. Token_dumpMQL u = Inr out
                \<and> (has_id_clause out \<longleftrightarrow> \<not> (\<forall>v \<in> set (all_tokens h). monad u \<le> monad v))))"
proof (intro conjI impI)
  show "\<exists>out. Token_dumpMQL t = Inr out \<and> (has_id_clause out \<longleftrightarrow> id_d t \<noteq> 0)"
    by (rule Token_dumpMQL_clause)
  show "\<exists>out. SRObject_dumpMQL obj = Inr out \<and> (has_id_clause out \<longleftrightarrow> obj_id_d obj \<noteq> 0)"
    by (rule SRObject_dumpMQL_clause)
next
  assume a: "MQLGeneratorHandler_init scr first_monad 0 = Inr h0 \<and> feed tk h0 evs = Inr h
        \<and> u \<in> set (all_tokens h)"
  then have f: "(id_d u = 0) = (\<forall>v \<in> set (all_tokens h). monad u \<le> monad v)"
    using first_token_has_first_id [of scr first_monad 0 h0 tk evs h u] by blast
  then show "(id_d u = 0) = (\<forall>v \<in> set (all_tokens h). monad u \<le> monad v)" .
  from Token_dumpMQL_clause [of u] f
  show "\<exists>out. Token_dumpMQL u = Inr out
          \<and> (has_id_clause out \<longleftrightarrow> \<not> (\<forall>v \<in> set (all_tokens h). monad u \<le> monad v))"
    by auto
qed

text \<open>
  The two tokens of the run over \<^verbatim>\<open><p>A<note>B<p>C</p></note>D</p>\<close>.
\<close>

theorem id_clause_iff_nonzero_witness:
  "\<exists>h0 h c d.
     MQLGeneratorHandler_init (nixing_script 1) 1 0 = Inr h0
     \<and> feed tokenize_whole h0 nixing_events = Inr h
     \<and> all_tokens h = [c, d]
     \<and> (monad c, id_d c) = (1, 0) \<and> (monad d, id_d d) = (2, 1)
     \<and> map_sum id has_id_clause (Token_dumpMQL c) = Inr False
     \<and> map_sum id has_id_clause (Token_dumpMQL d) = Inr True"
proof -
  have "\<exists>h0 h c d.
     MQLGeneratorHandler_init (nixing_script 1) 1 0 = Inr h0
     \<and> feed tokenize_whole h0 nixing_events = Inr h
     \<and> all_tokens h = [c, d]
     \<and> (monad c, id_d c) = (1, 0) \<and> (monad d, id_d d) = (2, 1)"
    by (simp add: scenario_defs init_defs step_defs)
  then obtain h0 h c d where
    a: "MQLGeneratorHandler_init (nixing_script 1) 1 0 = Inr h0"
      "feed tokenize_whole h0 nixing_events = Inr h"
      "all_tokens h = [c, d]" "(monad c, id_d c) = (1, 0)" "(monad d, id_d d) = (2, 1)"
    by blast
  from id_clause_iff_nonzero [of c _ "nixing_script 1" 1 h0 tokenize_whole nixing_events h c] a
  have "\<exists>out. Token_dumpMQL c = Inr out \<and> \<not> has_id_clause out" by auto
  then have c: "map_sum id has_id_clause (Token_dumpMQL c) = Inr False" by auto
  from id_clause_iff_nonzero [of d _ "nixing_script 1" 1 h0 tokenize_whole nixing_events h d] a
  have "\<exists>out. Token_dumpMQL d = Inr out \<and> has_id_clause out" by auto
  then have d: "map_sum id has_id_clause (Token_dumpMQL d) = Inr True" by auto
  from a c d show ?thesis by blast
qed

subsection \<open>Two documents\<close>

lemma tokens_between_counters:
  assumes "MQLGeneratorHandler_init scr first_monad first_id_d = Inr h0" "feed tk h0 evs = Inr h"
    "t \<in> set (all_tokens h)"
  shows "first_id_d \<le> id_d t \<and> id_d t < curid_d h \<and> first_monad \<le> monad t \<and> monad t < curmonad h"
  using minted_bounds [OF feed_inv [OF assms(2) init_inv [OF assms(1)], unfolded minted_inv_def] assms(3)] .

lemma two_documents_scenario:
  "map_sum id (\<lambda>h. (map monad (all_tokens h), curmonad h, curid_d h, curdocindex h))
       (run tokenize_whole (nixing_script 1) 1 0 (p_events ''A'')) = Inr ([1], 2, 1, 4)
   \<and> map_sum id (\<lambda>h. (map monad (all_tokens h), curmonad h, curid_d h, curdocindex h))
       (run tokenize_whole (nixing_script 1) 2 1 (p_events ''B'')) = Inr ([2], 3, 2, 4)"
  by (simp add: scenario_defs init_defs step_defs)

text \<open>
  C6 (as amended).  The constructor takes the first monad and the first identifier and
  starts the monad and identifier counters there; the document-index counter always starts
  at 1.  When a second handler is constructed from the final monad and identifier counters
  of a first run, every token of the first document has its monad and identifier below
  those counters and every token of the second document at or above them.  In the scenario
  of the documents \<^verbatim>\<open><p>A</p>\<close> and \<^verbatim>\<open><p>B</p>\<close>, the first run from monad 1 ends with its
  last monad at 1 and the counter at 2, and the second run, started at 2, mints its first
  token at monad 2.
\<close>

theorem monad_and_id_carry_over:
  "(MQLGeneratorHandler_init scr first_monad first_id_d = Inr h0 \<longrightarrow>
      curmonad h0 = first_monad \<and> curid_d h0 = first_id_d \<and> curdocindex h0 = 1)
   \<and> (MQLGeneratorHandler_init scr first_monad first_id_d = Inr h0 \<and> feed tk h0 evs1 = Inr h1
        \<and> MQLGeneratorHandler_init scr (curmonad h1) (curid_d h1) = Inr h0' \<and> feed tk h0' evs2 = Inr h2
        \<and> t \<in> set (all_tokens h1) \<and> u \<in> set (all_tokens h2) \<longrightarrow>
          monad t < curmonad h1 \<and> curmonad h1 \<le> monad u \<and> id_d t < curid_d h1 \<and> curid_d h1 \<le> id_d u)
   \<and> map_sum id (\<lambda>h. (map monad (all_tokens h), curmonad h, curid_d h, curdocindex h))
       (run tokenize_whole (nixing_script 1) 1 0 (p_events ''A'')) = Inr ([1], 2, 1, 4)
   \<and> map_sum id (\<lambda>h. (map monad (all_tokens h), curmonad h, curid_d h, curdocindex h))
       (run tokenize_whole (nixing_script 1) 2 1 (p_events ''B'')) = Inr ([2], 3, 2, 4)"
  using init_result(1-3) [of scr first_monad first_id_d h0]
    tokens_between_counters [of scr first_monad first_id_d h0 tk evs1 h1 t]
    tokens_between_counters [of scr "curmonad h1" "curid_d h1" h0' tk evs2 h2 u]
    two_documents_scenario
  by blast

text \<open>
  The two runs of the scenario, the second constructed from the counters of the first.
\<close>

theorem monad_and_id_carry_over_witness:
  "\<exists>h0 h1 h0' h2 t u.
     MQLGeneratorHandler_init (nixing_script 1) 1 0 = Inr h0
     \<and> feed tokenize_whole h0 (p_events ''A'') = Inr h1
     \<and> MQLGeneratorHandler_init (nixing_script 1) (curmonad h1) (curid_d h1) = Inr h0'
     \<and> feed tokenize_whole h0' (p_events ''B'') = Inr h2
     \<and> all_tokens h1 = [t] \<and> all_tokens h2 = [u]
     \<and> curmonad h0' = curmonad h1 \<and> curid_d h0' = curid_d h1 \<and> curdocindex h0' = 1
     \<and> monad t < curmonad h1 \<and> curmonad h1 \<le> monad u \<and> id_d t < curid_d h1 \<and> curid_d h1 \<le> id_d u
     \<and> monad t + 1 = monad u"
proof -
  have "\<exists>h0 h1 h0' h2 t u.
     MQLGeneratorHandler_init (nixing_script 1) 1 0 = Inr h0
     \<and> feed tokenize_whole h0 (p_events ''A'') = Inr h1
     \<and> MQLGeneratorHandler_init (nixing_script 1) (curmonad h1) (curid_d h1) = Inr h0'
     \<and> feed tokenize_whole h0' (p_events ''B'') = Inr h2
     \<and> all_tokens h1 = [t] \<and> all_tokens h2 = [u] \<and> monad t + 1 = monad u"
    by (simp add: scenario_defs init_defs step_defs)
  then obtain h0 h1 h0' h2 t u where
    a: "MQLGeneratorHandler_init (nixing_script 1) 1 0 = Inr h0"
      "feed tokenize_whole h0 (p_events ''A'') = Inr h1"
      "MQLGeneratorHandler_init (nixing_script 1) (curmonad h1) (curid_d h1) = Inr h0'"
      "feed tokenize_whole h0' (p_events ''B'') = Inr h2"
      "all_tokens h1 = [t]" "all_tokens h2 = [u]" "monad t + 1 = monad u"
    by blast
  from monad_and_id_carry_over [of "nixing_script 1" "curmonad h1" "curid_d h1" h0'] a(3)
  have 1: "curmonad h0' = curmonad h1 \<and> curid_d h0' = curid_d h1 \<and> curdocindex h0' = 1" by blast
  from monad_and_id_carry_over [of "nixing_script 1" 1 0 h0 tokenize_whole "p_events ''A''" h1 h0'
      "p_events ''B''" h2 t u] a
  have 2: "monad t < curmonad h1 \<and> curmonad h1 \<le> monad u \<and> id_d t < curid_d h1 \<and> curid_d h1 \<le> id_d u"
    by simp
  from a 1 2 show ?thesis by blast
qed

text \<open>
  The claim as stated fails: the first run ends with the document index at 4, and the
  handler constructed for the second document starts it at 1.
\<close>

theorem docindex_does_not_carry_over:
  "map_sum id curdocindex (run tokenize_whole (nixing_script 1) 1 0 (p_events ''A'')) = Inr 4
   \<and> map_sum id curdocindex
       (case run tokenize_whole (nixing_script 1) 1 0 (p_events ''A'') of
          Inl e \<Rightarrow> Inl e
        | Inr h1 \<Rightarrow> MQLGeneratorHandler_init (nixing_script 1) (curmonad h1) (curid_d h1)) = Inr 1"
  by (simp add: scenario_defs init_defs step_defs)

end
